theory Spec2Isabelle
  imports Complex_Main
begin

section \<open>The planning poker client of \<open>src/App.tsx\<close>\<close>

text \<open>
  The component keeps seven React state cells and one socket reference. The model is a
  record of those cells, every handler of the component is a function from the record
  to the record, and the messages handed to \<open>socket.emit\<close> are logged inside the socket
  reference, oldest first, so that "nothing was sent" is a statement about the model.
\<close>

subsection \<open>Data\<close>

text \<open>\<open>Player.vote\<close> has the type \<open>number | '?' | null\<close>. Numeric votes are integer valued,
  as every estimate card is.\<close>

datatype vote = Num int | Masked | Null

record player =
  id_player :: string
  name :: string
  vote :: vote

text \<open>The four events the component emits, with the fields of their payload objects.\<close>

datatype intent =
    Join string string
  | Vote string int
  | Reveal string
  | Reset string

record app =
  selectedCard :: "int option"
  roomId :: string
  playerName :: string
  players :: "player list"
  isRevealed :: bool
  isConnected :: bool
  error :: string
  socketRef :: "intent list option"

text \<open>\<open>socketRef.current\<close> is \<open>null\<close> (\<open>None\<close>) until the socket library has loaded; afterwards
  it holds the socket, represented by the list of what has been emitted through it.\<close>

definition cards :: "int list" where
  "cards = [1, 2, 3, 5, 8, 13, 21]"

definition init :: app where
  "init = \<lparr>selectedCard = None, roomId = [], playerName = [], players = [],
           isRevealed = False, isConnected = False, error = [], socketRef = None\<rparr>"

definition sent :: "app \<Rightarrow> intent list" where
  "sent s = (case socketRef s of None \<Rightarrow> [] | Some sock \<Rightarrow> sock)"

text \<open>\<open>socketRef.current?.emit(m)\<close>: nothing happens on a null reference.\<close>

definition emit :: "intent \<Rightarrow> app \<Rightarrow> app" where
  "emit m s = s\<lparr>socketRef := map_option (\<lambda>sock. sock @ [m]) (socketRef s)\<rparr>"

text \<open>Truthiness of \<open>ref.current?.value\<close>: \<open>undefined\<close> and the empty string are falsy.\<close>

definition truthy :: "string option \<Rightarrow> bool" where
  "truthy v = (case v of None \<Rightarrow> False | Some str \<Rightarrow> str \<noteq> [])"

subsection \<open>Socket handlers (lines 64 to 99)\<close>

datatype message =
    Connect
  | Disconnect
  | Player_list_update "player list"
  | Player_voted string
  | Votes_revealed "player list"
  | Game_reset "player list"
  | Error string

fun socket_on :: "message \<Rightarrow> app \<Rightarrow> app" where
  "socket_on Connect s = s\<lparr>isConnected := True\<rparr>"
| "socket_on Disconnect s = s\<lparr>isConnected := False, roomId := [], players := []\<rparr>"
| "socket_on (Player_list_update data) s = s\<lparr>players := data\<rparr>"
| "socket_on (Player_voted playerId) s =
     s\<lparr>players := map (\<lambda>p. if id_player p = playerId then p\<lparr>vote := Masked\<rparr> else p)
                       (players s)\<rparr>"
| "socket_on (Votes_revealed data) s = s\<lparr>players := data, isRevealed := True\<rparr>"
| "socket_on (Game_reset data) s =
     s\<lparr>players := data, selectedCard := None, isRevealed := False\<rparr>"
| "socket_on (Error msg) s = s\<lparr>error := msg\<rparr>"

subsection \<open>User actions (lines 125 to 186 and the two inline handlers of lines 289 and 296)\<close>

definition handleCardClick :: "int \<Rightarrow> app \<Rightarrow> app" where
  "handleCardClick c s =
     (if \<not> isRevealed s \<and> isConnected s \<and> socketRef s \<noteq> None \<and> roomId s \<noteq> []
      then emit (Vote (roomId s) c) (s\<lparr>selectedCard := Some c\<rparr>)
      else s)"

definition handleJoin :: "string option \<Rightarrow> string option \<Rightarrow> app \<Rightarrow> app" where
  "handleJoin currentRoomId currentPlayerName s =
     (if socketRef s \<noteq> None \<and> truthy currentRoomId \<and> truthy currentPlayerName
      then emit (Join (the currentRoomId) (the currentPlayerName))
             (s\<lparr>roomId := the currentRoomId, playerName := the currentPlayerName,
                players := [], error := []\<rparr>)
      else s\<lparr>error := ''Please enter a room ID and your name.''\<rparr>)"

text \<open>What the request of \<open>handleCreateRoom\<close> comes back with: a room id, an \<open>Error\<close>
  carrying a message (a rejected fetch, a status that is not ok, a body that is not JSON),
  or a thrown value that is no \<open>Error\<close>.\<close>

datatype fetch_result = Created string | Failed string | Failed_unknown

definition handleCreateRoom :: "string option \<Rightarrow> fetch_result \<Rightarrow> app \<Rightarrow> app" where
  "handleCreateRoom currentPlayerName res s =
     (if \<not> truthy currentPlayerName
      then s\<lparr>error := ''Please enter your name before creating a room.''\<rparr>
      else case res of
          Created rid \<Rightarrow>
            emit (Join rid (the currentPlayerName))
              (s\<lparr>roomId := rid, playerName := the currentPlayerName, players := []\<rparr>)
        | Failed msg \<Rightarrow>
            s\<lparr>error := ''Failed to connect to the backend: '' @ msg @
                 ''. Please ensure the Python server is running and accessible.''\<rparr>
        | Failed_unknown \<Rightarrow>
            s\<lparr>error := ''An unknown error occurred while creating a room.''\<rparr>)"

definition revealOnClick :: "app \<Rightarrow> app" where
  "revealOnClick s = emit (Reveal (roomId s)) s"

definition resetOnClick :: "app \<Rightarrow> app" where
  "resetOnClick s = emit (Reset (roomId s)) s"

subsection \<open>What the rendered page lets the user do (lines 195 to 300)\<close>

text \<open>
  The join form is rendered while \<open>roomId\<close> is empty, the board otherwise. The board has one
  button per element of \<open>cards\<close>, calling \<open>handleCardClick\<close> on that element, and the card
  buttons and the reveal button carry \<open>disabled={isRevealed || !isConnected}\<close>.
\<close>

datatype click =
    Click_join string string
  | Click_card nat
  | Click_reveal
  | Click_reset

fun on_click :: "click \<Rightarrow> app \<Rightarrow> app" where
  "on_click (Click_join rid nm) s =
     (if roomId s = [] then handleJoin (Some rid) (Some nm) s else s)"
| "on_click (Click_card i) s =
     (if roomId s \<noteq> [] \<and> i < length cards \<and> \<not> (isRevealed s \<or> \<not> isConnected s)
      then handleCardClick (cards ! i) s else s)"
| "on_click Click_reveal s =
     (if roomId s \<noteq> [] \<and> \<not> (isRevealed s \<or> \<not> isConnected s) then revealOnClick s else s)"
| "on_click Click_reset s =
     (if roomId s \<noteq> [] then resetOnClick s else s)"

subsection \<open>The component as a transition system\<close>

text \<open>
  \<open>Script_onload io\<close> is the \<open>onload\<close> callback of the script tag, \<open>io\<close> telling whether
  \<open>window.io\<close> is defined. A socket message reaches a handler only once the socket exists,
  since the handlers are registered on it. \<open>Create_room\<close> may run in any state, which
  covers a request that settles after other events.
\<close>

datatype event =
    Script_onload bool
  | Socket message
  | Ui click
  | Create_room "string option" fetch_result

fun step :: "event \<Rightarrow> app \<Rightarrow> app" where
  "step (Script_onload io) s = (if io then s\<lparr>socketRef := Some []\<rparr> else s)"
| "step (Socket m) s = (if socketRef s \<noteq> None then socket_on m s else s)"
| "step (Ui c) s = on_click c s"
| "step (Create_room nm res) s = handleCreateRoom nm res s"

fun run :: "event list \<Rightarrow> app \<Rightarrow> app" where
  "run [] s = s"
| "run (e # es) s = run es (step e s)"

inductive reachable :: "app \<Rightarrow> bool" where
  reachable_init: "reachable init"
| reachable_step: "reachable s \<Longrightarrow> reachable (step e s)"

subsection \<open>Numbers (binary64) and \<open>Number.prototype.toFixed\<close>\<close>

text \<open>
  A finite JavaScript number is a rational with a 53 bit significand. \<open>fl\<close> rounds a
  rational to the nearest such number, ties to the even significand, as every arithmetic
  operation of the language does with its exact result; below the normal range the spacing
  stays at \<open>2 powi (- 1074)\<close>. \<open>None\<close> stands for a result that is not finite (the
  rounded magnitude reaches \<open>2 ^ 1024\<close>); the infinities and NaN are not modelled.
\<close>

fun ilog2 :: "nat \<Rightarrow> nat" where
  "ilog2 n = (if n < 2 then 0 else Suc (ilog2 (n div 2)))"

declare ilog2.simps [simp del]

text \<open>\<open>binade x\<close> is the integer \<open>e\<close> with \<open>2 powi e \<le> x < 2 powi (e + 1)\<close>, for \<open>0 < x\<close>.\<close>

definition binade :: "rat \<Rightarrow> int" where
  "binade x =
     (if 1 \<le> x then int (ilog2 (nat \<lfloor>x\<rfloor>))
      else if nat \<lceil>1 / x\<rceil> \<le> 1 then 0
      else - int (Suc (ilog2 (nat \<lceil>1 / x\<rceil> - 1))))"

definition round_half_even :: "rat \<Rightarrow> int" where
  "round_half_even y =
     (let f = \<lfloor>y\<rfloor>; r = y - of_int f
      in if r < 1 / 2 then f else if 1 / 2 < r then f + 1 else if even f then f else f + 1)"

definition fl :: "rat \<Rightarrow> rat option" where
  "fl x =
     (if x = 0 then Some 0
      else let ulp = 2 powi (max (binade \<bar>x\<bar>) (- 1022) - 52);
               y = of_int (round_half_even (x / ulp)) * ulp
           in if \<bar>y\<bar> < 2 ^ 1024 then Some y else None)"

text \<open>The digits of the decimal representation of \<open>n\<close>, with no leading zeroes.\<close>

fun digits :: "nat \<Rightarrow> string" where
  "digits n =
     (if n < 10 then [''0123456789'' ! n]
      else digits (n div 10) @ [''0123456789'' ! (n mod 10)])"

declare digits.simps [simp del]

text \<open>
  \<open>toFixed f x\<close> follows the steps of the language standard for \<open>x.toFixed(f)\<close>: the sign is
  split off, \<open>n\<close> is the integer for which \<open>n / 10 ^ f\<close> is closest to \<open>x\<close> (the larger one
  of two), its digits are padded with zeroes to \<open>f + 1\<close> characters, and the point goes
  before the last \<open>f\<close> of them. From \<open>10 ^ 21\<close> on the standard switches to the exponent
  notation of \<open>ToString\<close>, which is not modelled: \<open>None\<close>.
\<close>

definition toFixed :: "nat \<Rightarrow> rat \<Rightarrow> string option" where
  "toFixed f x0 =
     (let s = (if x0 < 0 then ''-'' else []); x = \<bar>x0\<bar>
      in if 10 ^ 21 \<le> x then None
         else let n = nat \<lfloor>x * 10 ^ f + 1 / 2\<rfloor>;
                  m = digits n;
                  m = (if length m \<le> f then replicate (f + 1 - length m) (CHR ''0'') @ m else m);
                  k = length m
              in Some (s @ (if f \<noteq> 0 then take (k - f) m @ ''.'' @ drop (k - f) m else m)))"

subsection \<open>\<open>calculateAverage\<close> (lines 117 to 122)\<close>

text \<open>\<open>typeof v === 'number'\<close>, and the cast of the filtered array to \<open>number[]\<close>.\<close>

fun is_number :: "vote \<Rightarrow> bool" where
  "is_number (Num n) = True"
| "is_number v = False"

fun the_number :: "vote \<Rightarrow> int" where
  "the_number (Num n) = n"
| "the_number v = 0"

definition numeric_votes :: "player list \<Rightarrow> int list" where
  "numeric_votes ps = map the_number (filter is_number (map vote ps))"

text \<open>\<open>votes.reduce((acc, curr) => acc + curr, 0)\<close>, every addition rounded. The function
  returns \<open>Some\<close> of the string it computes, and \<open>None\<close> where the arithmetic or \<open>toFixed\<close>
  leaves the modelled range.\<close>

fun reduce_add :: "rat \<Rightarrow> int list \<Rightarrow> rat option" where
  "reduce_add acc [] = Some acc"
| "reduce_add acc (cur # rest) =
     (case fl (acc + of_int cur) of None \<Rightarrow> None | Some acc' \<Rightarrow> reduce_add acc' rest)"

definition calculateAverage :: "player list \<Rightarrow> string option" where
  "calculateAverage ps =
     (let votes = numeric_votes ps
      in if length votes = 0 then Some ''0''
         else case reduce_add 0 votes of
             None \<Rightarrow> None
           | Some sum_votes \<Rightarrow>
               (case fl (sum_votes / of_nat (length votes)) of
                  None \<Rightarrow> None
                | Some mean \<Rightarrow> toFixed 1 mean))"

subsection \<open>A sample session\<close>

definition ann :: player where
  "ann = \<lparr>id_player = ''a'', name = ''Ann'', vote = Null\<rparr>"

definition bob :: player where
  "bob = \<lparr>id_player = ''b'', name = ''Bob'', vote = Num 8\<rparr>"

text \<open>The library loads, the socket connects, the user joins room R1, the two players are
  announced and the user picks the card 5.\<close>

definition joined :: app where
  "joined = run [Script_onload True, Socket Connect, Ui (Click_join ''R1'' ''Ann''),
                 Socket (Player_list_update [ann, bob])] init"

definition voted :: app where
  "voted = run [Ui (Click_card 3)] joined"

definition shown :: app where
  "shown = run [Socket (Votes_revealed [ann\<lparr>vote := Num 5\<rparr>, bob])] voted"

text \<open>A room created, and answered by the server, before the socket library has loaded.\<close>

definition created :: app where
  "created = run [Create_room (Some ''Ann'') (Created ''R1'')] init"

text \<open>A revealed table: three numeric votes among a masked and an absent one.\<close>

definition table :: "player list" where
  "table = [ann\<lparr>vote := Num 3\<rparr>, bob\<lparr>vote := Masked\<rparr>, ann\<lparr>vote := Num 5\<rparr>, ann, bob]"

subsection \<open>Vocabulary of the properties\<close>

text \<open>
  The definitions of this subsection are not part of the component; the properties below
  are stated with them. \<open>payload\<close> picks the three messages whose handler has the parameter
  \<open>data: Player[]\<close>, with that parameter; \<open>one_decimal n\<close> is the decimal numeral of
  \<open>n / 10\<close> with one fractional digit; \<open>decimal_value\<close> reads a string of digits.
\<close>

fun is_game_reset :: "event \<Rightarrow> bool" where
  "is_game_reset (Socket (Game_reset data)) = True"
| "is_game_reset e = False"

definition one_decimal :: "nat \<Rightarrow> string" where
  "one_decimal n = digits (n div 10) @ ''.'' @ digits (n mod 10)"

definition decimal_value :: "string \<Rightarrow> nat" where
  "decimal_value str = foldl (\<lambda>a c. 10 * a + (of_char c - 48)) 0 str"

fun payload :: "message \<Rightarrow> player list option" where
  "payload (Player_list_update data) = Some data"
| "payload (Votes_revealed data) = Some data"
| "payload (Game_reset data) = Some data"
| "payload m = None"

section \<open>Properties\<close>

subsection \<open>Reachable states\<close>

lemma reachable_run: "reachable s \<Longrightarrow> reachable (run es s)"
  by (induction es arbitrary: s) (auto intro: reachable_step)

lemma connected_has_socket: "reachable s \<Longrightarrow> isConnected s \<Longrightarrow> socketRef s \<noteq> None"
proof (induction rule: reachable.induct)
  case reachable_init
  then show ?case by (simp add: init_def)
next
  case (reachable_step s e)
  show ?case
  proof (cases e)
    case (Script_onload io)
    with reachable_step show ?thesis by (auto split: if_splits)
  next
    case (Socket m)
    with reachable_step show ?thesis by (cases m) (auto split: if_splits)
  next
    case (Ui c)
    with reachable_step show ?thesis
      by (cases c)
         (auto simp: handleJoin_def handleCardClick_def revealOnClick_def resetOnClick_def
               emit_def split: if_splits)
  next
    case (Create_room nm res)
    with reachable_step show ?thesis
      by (cases res) (auto simp: handleCreateRoom_def emit_def split: if_splits)
  qed
qed

lemma vote_in_emit:
  "Vote r v \<in> set (sent (emit m s)) \<Longrightarrow> Vote r v \<in> set (sent s) \<or> m = Vote r v"
  by (cases "socketRef s") (auto simp: sent_def emit_def)

lemma sent_frame [simp]:
  "sent (s\<lparr>selectedCard := a\<rparr>) = sent s"
  "sent (s\<lparr>roomId := b\<rparr>) = sent s"
  "sent (s\<lparr>playerName := b\<rparr>) = sent s"
  "sent (s\<lparr>players := ps\<rparr>) = sent s"
  "sent (s\<lparr>isRevealed := d\<rparr>) = sent s"
  "sent (s\<lparr>isConnected := d\<rparr>) = sent s"
  "sent (s\<lparr>error := b\<rparr>) = sent s"
  by (simp_all add: sent_def)

lemma step_vote:
  assumes "Vote r v \<in> set (sent (step e s))"
  shows "Vote r v \<in> set (sent s) \<or> v \<in> set cards"
proof (cases e)
  case (Script_onload io)
  with assms show ?thesis by (auto simp: sent_def split: if_splits)
next
  case (Socket m)
  with assms show ?thesis by (cases m) (auto split: if_splits)
next
  case (Ui c)
  show ?thesis
  proof (cases c)
    case (Click_join rid nm)
    with Ui assms show ?thesis
      by (auto simp: handleJoin_def split: if_splits dest!: vote_in_emit)
  next
    case (Click_card i)
    with Ui assms show ?thesis
      by (auto simp: handleCardClick_def split: if_splits dest!: vote_in_emit)
  next
    case Click_reveal
    with Ui assms show ?thesis
      by (auto simp: revealOnClick_def split: if_splits dest!: vote_in_emit)
  next
    case Click_reset
    with Ui assms show ?thesis
      by (auto simp: resetOnClick_def split: if_splits dest!: vote_in_emit)
  qed
next
  case (Create_room nm res)
  with assms show ?thesis
    by (cases res) (auto simp: handleCreateRoom_def split: if_splits dest!: vote_in_emit)
qed

lemma step_keeps_revealed:
  assumes "isRevealed s" and "\<not> is_game_reset e"
  shows "isRevealed (step e s) \<and> selectedCard (step e s) = selectedCard s"
proof (cases e)
  case (Script_onload io)
  with assms show ?thesis by simp
next
  case (Socket m)
  with assms show ?thesis by (cases m) simp_all
next
  case (Ui c)
  with assms show ?thesis
    by (cases c)
       (simp_all add: handleJoin_def handleCardClick_def revealOnClick_def resetOnClick_def
          emit_def)
next
  case (Create_room nm res)
  with assms show ?thesis by (cases res) (simp_all add: handleCreateRoom_def emit_def)
qed

lemma run_keeps_revealed:
  "isRevealed s \<Longrightarrow> \<forall>e \<in> set es. \<not> is_game_reset e \<Longrightarrow>
   isRevealed (run es s) \<and> selectedCard (run es s) = selectedCard s"
proof (induction es arbitrary: s)
  case Nil
  then show ?case by simp
next
  case (Cons e es)
  from Cons.prems have st: "isRevealed (step e s) \<and> selectedCard (step e s) = selectedCard s"
    by (intro step_keeps_revealed) simp_all
  from Cons.prems have "\<forall>x \<in> set es. \<not> is_game_reset x" by simp
  with st Cons.IH [of "step e s"] show ?case by simp
qed

subsection \<open>The sample session, evaluated\<close>

lemma joined_eq:
  "joined = \<lparr>selectedCard = None, roomId = ''R1'', playerName = ''Ann'', players = [ann, bob],
             isRevealed = False, isConnected = True, error = [],
             socketRef = Some [Join ''R1'' ''Ann'']\<rparr>"
  by (simp add: joined_def init_def handleJoin_def truthy_def emit_def)

lemma voted_eq:
  "voted = \<lparr>selectedCard = Some 5, roomId = ''R1'', playerName = ''Ann'', players = [ann, bob],
            isRevealed = False, isConnected = True, error = [],
            socketRef = Some [Join ''R1'' ''Ann'', Vote ''R1'' 5]\<rparr>"
  by (simp add: voted_def joined_eq handleCardClick_def emit_def cards_def)

lemma shown_eq:
  "shown = \<lparr>selectedCard = Some 5, roomId = ''R1'', playerName = ''Ann'',
            players = [ann\<lparr>vote := Num 5\<rparr>, bob],
            isRevealed = True, isConnected = True, error = [],
            socketRef = Some [Join ''R1'' ''Ann'', Vote ''R1'' 5]\<rparr>"
  by (simp add: shown_def voted_eq)

lemma created_eq:
  "created = \<lparr>selectedCard = None, roomId = ''R1'', playerName = ''Ann'', players = [],
              isRevealed = False, isConnected = False, error = [], socketRef = None\<rparr>"
  by (simp add: created_def init_def handleCreateRoom_def truthy_def emit_def)

lemma reachable_joined: "reachable joined"
  unfolding joined_def by (rule reachable_run [OF reachable_init])

lemma reachable_voted: "reachable voted"
  unfolding voted_def by (rule reachable_run [OF reachable_joined])

lemma reachable_shown: "reachable shown"
  unfolding shown_def by (rule reachable_run [OF reachable_voted])

lemma reachable_created: "reachable created"
  unfolding created_def by (rule reachable_run [OF reachable_init])

subsection \<open>Messages from the coordinator\<close>

text \<open>
  C5 as stated fails in its last clause: after the \<open>disconnect\<close> handler the client still
  holds state of the room, \<open>isRevealed\<close> and \<open>selectedCard\<close>, and a click on the join button
  while still disconnected sets \<open>roomId\<close> again and emits a \<open>join\<close> event.
\<close>

theorem disconnect_room_state_counterexample:
  "reachable (run [Socket Disconnect] shown)
   \<and> \<not> isConnected (run [Socket Disconnect] shown)
   \<and> isRevealed (run [Socket Disconnect] shown)
   \<and> selectedCard (run [Socket Disconnect] shown) = Some 5
   \<and> reachable (run [Socket Disconnect, Ui (Click_join ''R2'' ''Ann'')] shown)
   \<and> \<not> isConnected (run [Socket Disconnect, Ui (Click_join ''R2'' ''Ann'')] shown)
   \<and> roomId (run [Socket Disconnect, Ui (Click_join ''R2'' ''Ann'')] shown) = ''R2''
   \<and> sent (run [Socket Disconnect, Ui (Click_join ''R2'' ''Ann'')] shown)
       = sent shown @ [Join ''R2'' ''Ann'']"
  using reachable_run [OF reachable_shown, of "[Socket Disconnect]"]
    reachable_run [OF reachable_shown, of "[Socket Disconnect, Ui (Click_join ''R2'' ''Ann'')]"]
  by (simp add: shown_eq handleJoin_def truthy_def emit_def sent_def)

text \<open>
  C5, amended. The \<open>disconnect\<close> handler sets \<open>isConnected\<close> to false, \<open>roomId\<close> to the
  empty string and \<open>players\<close> to the empty list, and writes nothing else: \<open>isRevealed\<close> and
  \<open>selectedCard\<close> keep their contents. The room id does not stay empty for as long as the
  client is disconnected: a click on the join button with both fields filled in, the client
  still disconnected, sets \<open>roomId\<close> and \<open>playerName\<close> and emits a \<open>join\<close> event.
\<close>

theorem disconnect_clears_room:
  "socket_on Disconnect s = s\<lparr>isConnected := False, roomId := [], players := []\<rparr>
   \<and> isConnected (socket_on Disconnect s) = False
   \<and> roomId (socket_on Disconnect s) = []
   \<and> players (socket_on Disconnect s) = []
   \<and> isRevealed (socket_on Disconnect s) = isRevealed s
   \<and> selectedCard (socket_on Disconnect s) = selectedCard s
   \<and> (socketRef s \<noteq> None \<and> rid \<noteq> [] \<and> nm \<noteq> [] \<longrightarrow>
        on_click (Click_join rid nm) (socket_on Disconnect s) =
          s\<lparr>isConnected := False, roomId := rid, playerName := nm, players := [],
            error := [], socketRef := Some (sent s @ [Join rid nm])\<rparr>)"
  by (cases "socketRef s") (auto simp: handleJoin_def truthy_def emit_def sent_def)

theorem disconnect_clears_room_witness:
  "socketRef shown \<noteq> None
   \<and> socket_on Disconnect shown = shown\<lparr>isConnected := False, roomId := [], players := []\<rparr>
   \<and> isRevealed (socket_on Disconnect shown)
   \<and> on_click (Click_join ''R2'' ''Ann'') (socket_on Disconnect shown) =
       shown\<lparr>isConnected := False, roomId := ''R2'', playerName := ''Ann'', players := [],
             error := [], socketRef := Some (sent shown @ [Join ''R2'' ''Ann''])\<rparr>"
  using disconnect_clears_room [of shown "''R2''" "''Ann''"]
  by (simp add: shown_eq)

text \<open>
  C6. On \<open>game_reset\<close> the players are replaced by the payload, \<open>selectedCard\<close> becomes
  \<open>null\<close> and \<open>isRevealed\<close> false; on \<open>votes_revealed\<close> the players are replaced by the
  payload and \<open>isRevealed\<close> becomes true.
\<close>

theorem reset_and_reveal_broadcasts:
  "players (socket_on (Game_reset data) s) = data
   \<and> selectedCard (socket_on (Game_reset data) s) = None
   \<and> isRevealed (socket_on (Game_reset data) s) = False
   \<and> players (socket_on (Votes_revealed data) s) = data
   \<and> isRevealed (socket_on (Votes_revealed data) s) = True"
  by simp

text \<open>
  C7. A \<open>player_voted\<close> message writes the players list and nothing else, whatever player
  id it carries: \<open>selectedCard\<close>, \<open>isRevealed\<close> and every other cell keep their contents. In
  the players list every entry with that id gets the vote \<open>'?'\<close>, its id and name kept,
  and every other entry, and the order, stay as they are.
\<close>

theorem player_voted_frame:
  "socket_on (Player_voted pid) s =
     s\<lparr>players := map (\<lambda>p. if id_player p = pid then p\<lparr>vote := Masked\<rparr> else p) (players s)\<rparr>
   \<and> selectedCard (socket_on (Player_voted pid) s) = selectedCard s
   \<and> isRevealed (socket_on (Player_voted pid) s) = isRevealed s
   \<and> roomId (socket_on (Player_voted pid) s) = roomId s
   \<and> playerName (socket_on (Player_voted pid) s) = playerName s
   \<and> isConnected (socket_on (Player_voted pid) s) = isConnected s
   \<and> error (socket_on (Player_voted pid) s) = error s
   \<and> socketRef (socket_on (Player_voted pid) s) = socketRef s
   \<and> length (players (socket_on (Player_voted pid) s)) = length (players s)
   \<and> (\<forall>i < length (players s).
        players (socket_on (Player_voted pid) s) ! i =
          (if id_player (players s ! i) = pid then (players s ! i)\<lparr>vote := Masked\<rparr>
           else players s ! i))"
  by simp

theorem player_voted_frame_witness:
  "socket_on (Player_voted ''a'') voted = voted\<lparr>players := [ann\<lparr>vote := Masked\<rparr>, bob]\<rparr>
   \<and> selectedCard (socket_on (Player_voted ''a'') voted) = Some 5
   \<and> \<not> isRevealed (socket_on (Player_voted ''a'') voted)
   \<and> players (socket_on (Player_voted ''a'') voted) ! 0 = ann\<lparr>vote := Masked\<rparr>
   \<and> players (socket_on (Player_voted ''a'') voted) ! 1 = bob"
  using player_voted_frame [of "''a''" voted]
  by (simp add: voted_eq ann_def bob_def)

text \<open>
  C10. The \<open>disconnect\<close> handler writes \<open>isConnected\<close>, \<open>roomId\<close> and \<open>players\<close> only:
  \<open>isRevealed\<close>, \<open>selectedCard\<close> and the other cells keep their contents. A client that
  disconnects while the votes are revealed therefore still has \<open>isRevealed\<close> true and its
  old \<open>selectedCard\<close> after any further events (reconnecting and joining again among them),
  as long as none of them is a \<open>game_reset\<close> message; a \<open>votes_revealed\<close> message writes
  true again.
\<close>

theorem disconnect_keeps_revealed:
  "isRevealed (socket_on Disconnect s) = isRevealed s
   \<and> selectedCard (socket_on Disconnect s) = selectedCard s
   \<and> playerName (socket_on Disconnect s) = playerName s
   \<and> error (socket_on Disconnect s) = error s
   \<and> socketRef (socket_on Disconnect s) = socketRef s
   \<and> (isRevealed s \<longrightarrow> (\<forall>e \<in> set es. \<not> is_game_reset e) \<longrightarrow>
        isRevealed (run (Socket Disconnect # es) s)
        \<and> selectedCard (run (Socket Disconnect # es) s) = selectedCard s)"
proof -
  have "isRevealed (run (Socket Disconnect # es) s)
        \<and> selectedCard (run (Socket Disconnect # es) s) = selectedCard s"
    if "isRevealed s" and "\<forall>e \<in> set es. \<not> is_game_reset e"
    using run_keeps_revealed [of s "Socket Disconnect # es"] that by simp
  then show ?thesis by simp
qed

theorem disconnect_keeps_revealed_witness:
  "isRevealed shown
   \<and> roomId (run [Socket Disconnect] shown) = []
   \<and> roomId (run [Socket Disconnect, Socket Connect, Ui (Click_join ''R1'' ''Ann''),
                   Socket (Player_list_update [ann]), Ui (Click_card 0)] shown) = ''R1''
   \<and> isRevealed (run [Socket Disconnect, Socket Connect, Ui (Click_join ''R1'' ''Ann''),
                       Socket (Player_list_update [ann]), Ui (Click_card 0)] shown)
   \<and> selectedCard (run [Socket Disconnect, Socket Connect, Ui (Click_join ''R1'' ''Ann''),
                         Socket (Player_list_update [ann]), Ui (Click_card 0)] shown) = Some 5"
  using disconnect_keeps_revealed [of shown "[Socket Connect, Ui (Click_join ''R1'' ''Ann''),
                   Socket (Player_list_update [ann]), Ui (Click_card 0)]"]
  by (simp add: shown_eq handleJoin_def truthy_def emit_def)

text \<open>
  C2 as stated fails: the \<open>player_voted\<close> handler computes the new players list from the
  previous one, so the same message gives different lists from different previous lists.
\<close>

theorem player_voted_merges_counterexample:
  "players (socket_on (Player_voted ''a'') joined) = [ann\<lparr>vote := Masked\<rparr>, bob]
   \<and> players (socket_on (Player_voted ''a'') (joined\<lparr>players := [bob]\<rparr>)) = [bob]"
  by (simp add: joined_eq ann_def bob_def)

text \<open>
  C2, amended. A message that carries a players list (\<open>player_list_update\<close>,
  \<open>votes_revealed\<close>, \<open>game_reset\<close>) replaces \<open>players\<close> by that list, whatever the previous
  list was; \<open>isRevealed\<close> becomes true on \<open>votes_revealed\<close>, false on \<open>game_reset\<close> and is kept
  by \<open>player_list_update\<close>. A \<open>player_voted\<close> message carries a player id only and rewrites
  the previous list entry by entry.
\<close>

theorem payload_replaces_players:
  "(payload m = Some data \<longrightarrow>
      players (socket_on m s) = data
      \<and> socket_on m (s\<lparr>players := ps\<rparr>) = socket_on m s)
   \<and> isRevealed (socket_on (Votes_revealed data) s) = True
   \<and> isRevealed (socket_on (Game_reset data) s) = False
   \<and> isRevealed (socket_on (Player_list_update data) s) = isRevealed s
   \<and> players (socket_on (Player_voted pid) s) =
       map (\<lambda>p. if id_player p = pid then p\<lparr>vote := Masked\<rparr> else p) (players s)"
  by (cases m) simp_all

theorem payload_replaces_players_witness:
  "payload (Votes_revealed [bob]) = Some [bob]
   \<and> players (socket_on (Votes_revealed [bob]) joined) = [bob]
   \<and> socket_on (Votes_revealed [bob]) (joined\<lparr>players := [ann]\<rparr>)
       = socket_on (Votes_revealed [bob]) joined"
  using payload_replaces_players [of "Votes_revealed [bob]" "[bob]" joined "[ann]"]
  by simp

subsection \<open>User actions\<close>

text \<open>
  C3. In every state the component can reach, \<open>handleCardClick\<close> changes nothing and emits
  nothing unless the client is connected, a room id is set and the votes are not revealed;
  when all three hold it stores the chosen card in \<open>selectedCard\<close> and emits exactly one
  \<open>vote\<close> event with the room id and that card.
\<close>

theorem card_click_guard:
  assumes "reachable s"
  shows "handleCardClick c s =
           (if isConnected s \<and> roomId s \<noteq> [] \<and> \<not> isRevealed s
            then s\<lparr>selectedCard := Some c, socketRef := Some (sent s @ [Vote (roomId s) c])\<rparr>
            else s)"
proof (cases "isConnected s")
  case True
  with assms have "socketRef s \<noteq> None" by (rule connected_has_socket)
  then obtain sock where "socketRef s = Some sock" by auto
  with True show ?thesis by (simp add: handleCardClick_def emit_def sent_def)
next
  case False
  then show ?thesis by (simp add: handleCardClick_def)
qed

theorem card_click_guard_witness:
  "reachable joined
   \<and> selectedCard (handleCardClick 8 joined) = Some 8
   \<and> sent (handleCardClick 8 joined) = sent joined @ [Vote ''R1'' 8]
   \<and> handleCardClick 8 shown = shown"
  using card_click_guard [OF reachable_joined, of 8] card_click_guard [OF reachable_shown, of 8]
        reachable_joined
  by (simp add: joined_eq shown_eq sent_def)

text \<open>
  C9. Every \<open>vote\<close> event the component has emitted, in any state it can reach, carries an
  element of \<open>cards\<close>: \<open>handleCardClick\<close> is called from the card buttons only, one button per
  element of \<open>cards\<close>.
\<close>

theorem votes_from_cards:
  assumes "reachable s" and "Vote r v \<in> set (sent s)"
  shows "v \<in> set cards \<and> set cards = {1, 2, 3, 5, 8, 13, 21}"
proof -
  from assms have "v \<in> set cards"
  proof (induction rule: reachable.induct)
    case reachable_init
    then show ?case by (simp add: init_def sent_def)
  next
    case (reachable_step s e)
    from step_vote [OF reachable_step.prems] reachable_step.IH show ?case by blast
  qed
  then show ?thesis by (simp add: cards_def)
qed

theorem votes_from_cards_witness:
  "reachable voted \<and> Vote ''R1'' 5 \<in> set (sent voted) \<and> (5::int) \<in> set cards"
proof -
  have v: "Vote ''R1'' 5 \<in> set (sent voted)" by (simp add: voted_eq sent_def)
  from votes_from_cards [OF reachable_voted v] reachable_voted v show ?thesis by simp
qed

text \<open>
  C4 as stated fails: with both fields filled in, \<open>handleJoin\<close> still rejects when no socket
  exists yet, as in the initial state.
\<close>

theorem join_without_socket_counterexample:
  "truthy (Some ''R1'') \<and> truthy (Some ''Ann'')
   \<and> sent (handleJoin (Some ''R1'') (Some ''Ann'') init) = []
   \<and> roomId (handleJoin (Some ''R1'') (Some ''Ann'') init) = []
   \<and> playerName (handleJoin (Some ''R1'') (Some ''Ann'') init) = []
   \<and> error (handleJoin (Some ''R1'') (Some ''Ann'') init)
       = ''Please enter a room ID and your name.''"
  by (simp add: handleJoin_def init_def truthy_def sent_def)

text \<open>
  C4, amended. \<open>handleJoin\<close> with an empty or missing room id or player name, or with no
  socket, emits nothing and changes nothing but \<open>error\<close>, which becomes the validation
  message. With both fields non-empty and a socket, it sets \<open>roomId\<close> and \<open>playerName\<close> to
  the fields, clears \<open>players\<close> and \<open>error\<close>, and emits one \<open>join\<close> event carrying both.
\<close>

theorem join_cases:
  "(rid = [] \<or> nm = [] \<or> socketRef s = None \<longrightarrow>
      handleJoin (Some rid) (Some nm) s = s\<lparr>error := ''Please enter a room ID and your name.''\<rparr>)
   \<and> handleJoin None pn s = s\<lparr>error := ''Please enter a room ID and your name.''\<rparr>
   \<and> handleJoin ri None s = s\<lparr>error := ''Please enter a room ID and your name.''\<rparr>
   \<and> (rid \<noteq> [] \<and> nm \<noteq> [] \<and> socketRef s \<noteq> None \<longrightarrow>
        handleJoin (Some rid) (Some nm) s =
          s\<lparr>roomId := rid, playerName := nm, players := [], error := [],
            socketRef := Some (sent s @ [Join rid nm])\<rparr>)"
  by (cases "socketRef s") (auto simp: handleJoin_def truthy_def emit_def sent_def)

theorem join_cases_witness:
  "handleJoin (Some []) (Some ''Ann'') (step (Script_onload True) init)
     = (step (Script_onload True) init)\<lparr>error := ''Please enter a room ID and your name.''\<rparr>
   \<and> sent (handleJoin (Some []) (Some ''Ann'') (step (Script_onload True) init)) = []
   \<and> sent (handleJoin (Some ''R1'') (Some ''Ann'') (step (Script_onload True) init))
       = [Join ''R1'' ''Ann'']
   \<and> roomId (handleJoin (Some ''R1'') (Some ''Ann'') (step (Script_onload True) init)) = ''R1''
   \<and> playerName (handleJoin (Some ''R1'') (Some ''Ann'') (step (Script_onload True) init))
       = ''Ann''"
  using join_cases [of "[]" "''Ann''" "step (Script_onload True) init"]
        join_cases [of "''R1''" "''Ann''" "step (Script_onload True) init"]
  by (simp add: init_def sent_def)

text \<open>
  C8 as stated fails: a room id can be set while no socket exists (the room was created
  before the socket library loaded), and there both handlers emit nothing; and with the
  votes revealed a click on the reveal button, which is disabled, emits nothing either.
\<close>

theorem forward_counterexample:
  "reachable created \<and> roomId created = ''R1''
   \<and> resetOnClick created = created \<and> revealOnClick created = created
   \<and> sent (on_click Click_reset created) = []
   \<and> reachable shown \<and> roomId shown = ''R1'' \<and> isConnected shown
   \<and> on_click Click_reveal shown = shown"
  using reachable_created reachable_shown
  by (simp add: created_eq shown_eq resetOnClick_def revealOnClick_def emit_def sent_def)

text \<open>
  C8, amended. With a socket, the two inline handlers emit \<open>reveal\<close>, respectively \<open>reset\<close>,
  with the current \<open>roomId\<close> and change nothing else, whatever \<open>isRevealed\<close> and
  \<open>isConnected\<close> are; without a socket they do nothing. The reset button calls its handler
  whenever the board is rendered, the reveal button only while the client is connected and
  the votes are not revealed.
\<close>

theorem forward_cases:
  "(socketRef s \<noteq> None \<longrightarrow>
      revealOnClick s = s\<lparr>socketRef := Some (sent s @ [Reveal (roomId s)])\<rparr>
      \<and> resetOnClick s = s\<lparr>socketRef := Some (sent s @ [Reset (roomId s)])\<rparr>)
   \<and> (socketRef s = None \<longrightarrow> revealOnClick s = s \<and> resetOnClick s = s)
   \<and> on_click Click_reset s = (if roomId s \<noteq> [] then resetOnClick s else s)
   \<and> on_click Click_reveal s =
       (if roomId s \<noteq> [] \<and> isConnected s \<and> \<not> isRevealed s then revealOnClick s else s)"
  by (cases "socketRef s") (auto simp: revealOnClick_def resetOnClick_def emit_def sent_def)

theorem forward_cases_witness:
  "sent (revealOnClick shown) = sent shown @ [Reveal ''R1'']
   \<and> sent (resetOnClick shown) = sent shown @ [Reset ''R1'']
   \<and> sent (revealOnClick (shown\<lparr>isConnected := False\<rparr>)) = sent shown @ [Reveal ''R1'']
   \<and> revealOnClick created = created
   \<and> sent (on_click Click_reset shown) = sent shown @ [Reset ''R1'']
   \<and> sent (on_click Click_reveal voted) = sent voted @ [Reveal ''R1'']"
  using forward_cases [of shown] forward_cases [of "shown\<lparr>isConnected := False\<rparr>"]
        forward_cases [of created] forward_cases [of voted]
  by (simp add: shown_eq voted_eq created_eq sent_def)

subsection \<open>Binary64 rounding\<close>

lemma ilog2_bounds: "0 < n \<Longrightarrow> 2 ^ ilog2 n \<le> n \<and> n < 2 ^ Suc (ilog2 n)"
proof (induction n rule: ilog2.induct)
  case (1 n)
  show ?case
  proof (cases "n < 2")
    case True
    with "1.prems" have "n = 1" by simp
    then show ?thesis by (simp add: ilog2.simps)
  next
    case False
    then have pos: "0 < n div 2" by simp
    from "1.IH" [OF False pos]
    have lo: "2 ^ ilog2 (n div 2) \<le> n div 2" and hi: "n div 2 < 2 ^ Suc (ilog2 (n div 2))"
      by simp_all
    have eq: "ilog2 n = Suc (ilog2 (n div 2))" using False by (subst ilog2.simps) simp
    from lo have "2 * 2 ^ ilog2 (n div 2) \<le> n" by simp
    moreover from hi have "n < 2 * 2 ^ Suc (ilog2 (n div 2))" by linarith
    ultimately show ?thesis by (simp add: eq)
  qed
qed

lemma round_half_even_error: "\<bar>of_int (round_half_even y) - y\<bar> \<le> 1 / 2"
proof -
  define f where "f = \<lfloor>y\<rfloor>"
  have lo: "of_int f \<le> y" and hi: "y < of_int f + 1"
    unfolding f_def by linarith+
  have "round_half_even y = f \<and> y - of_int f \<le> 1 / 2
        \<or> round_half_even y = f + 1 \<and> 1 / 2 \<le> y - of_int f"
    unfolding round_half_even_def Let_def f_def [symmetric] by auto
  with lo hi show ?thesis by auto
qed

lemma round_half_even_of_int [simp]: "round_half_even (of_int n) = n"
  by (simp add: round_half_even_def)

lemma binade_ge1:
  assumes "1 \<le> x"
  shows "0 \<le> binade x \<and> 2 ^ nat (binade x) \<le> x \<and> x < 2 ^ Suc (nat (binade x))"
proof -
  define n where "n = nat \<lfloor>x\<rfloor>"
  have n: "0 < n" using assms by (simp add: n_def)
  have b: "binade x = int (ilog2 n)" using assms by (simp add: binade_def n_def)
  have lo: "of_nat n \<le> x" using assms by (simp add: n_def)
  have hi: "x < of_nat (Suc n)" using assms unfolding n_def
    by (simp add: of_nat_nat) linarith
  from ilog2_bounds [OF n] have "(2::nat) ^ ilog2 n \<le> n" and "Suc n \<le> 2 ^ Suc (ilog2 n)"
    by simp_all
  then have "(of_nat (2 ^ ilog2 n) :: rat) \<le> of_nat n"
    and "(of_nat (Suc n) :: rat) \<le> of_nat (2 ^ Suc (ilog2 n))"
    unfolding of_nat_le_iff by simp_all
  then have "(2::rat) ^ ilog2 n \<le> of_nat n" and "(of_nat (Suc n) :: rat) \<le> 2 ^ Suc (ilog2 n)"
    by simp_all
  with lo hi have "(2::rat) ^ ilog2 n \<le> x" and "x < 2 ^ Suc (ilog2 n)"
    by linarith+
  then show ?thesis by (simp add: b)
qed

lemma binade_bounds:
  assumes "0 < x"
  shows "2 powi binade x \<le> x \<and> x < 2 powi (binade x + 1)"
proof (cases "1 \<le> x")
  case True
  from binade_ge1 [OF True] show ?thesis
    by (simp add: power_int_def nat_add_distrib)
next
  case False
  define m where "m = nat \<lceil>1 / x\<rceil>"
  define c where "c = Suc (ilog2 (m - 1))"
  from False assms have y: "1 < 1 / x" by simp
  then have "2 \<le> \<lceil>1 / x\<rceil>" by linarith
  then have m2: "2 \<le> m" unfolding m_def by linarith
  have up: "1 / x \<le> of_nat m" unfolding m_def using y by (simp add: of_nat_nat) 
  have dn: "of_nat m - 1 < 1 / x" unfolding m_def using y by (simp add: of_nat_nat) linarith
  have b: "binade x = - int c" using False m2 by (simp add: binade_def m_def c_def)
  from m2 have "0 < m - 1" by simp
  from ilog2_bounds [OF this] have "2 ^ (c - 1) \<le> m - 1" and "m - 1 < 2 ^ c"
    by (simp_all add: c_def)
  then have "2 ^ (c - 1) \<le> m - 1" and "m \<le> 2 ^ c"
    by linarith+
  then have "(of_nat (2 ^ (c - 1)) :: rat) \<le> of_nat (m - 1)"
    and "(of_nat m :: rat) \<le> of_nat (2 ^ c)"
    unfolding of_nat_le_iff by simp_all
  with m2 have "(2::rat) ^ (c - 1) \<le> of_nat m - 1" and "(of_nat m :: rat) \<le> 2 ^ c"
    by (simp_all add: of_nat_diff)
  with up dn have A: "1 / x \<le> 2 ^ c" and B: "2 ^ (c - 1) < 1 / x" by linarith+
  from A assms have "1 \<le> x * 2 ^ c" by (simp add: field_simps)
  then have lo: "1 / 2 ^ c \<le> x" by (simp add: field_simps)
  from B assms have "x * 2 ^ (c - 1) < 1" by (simp add: field_simps)
  then have hi: "x < 1 / 2 ^ (c - 1)" by (simp add: field_simps)
  have c1: "- int c + 1 = - int (c - 1)" by (simp add: c_def)
  show ?thesis unfolding b c1 using lo hi
    by (simp add: power_int_minus_divide)
qed

lemma fl_of_int:
  assumes "0 \<le> n" and "n < 2 ^ 53"
  shows "fl (of_int n) = Some (of_int n)"
proof (cases "n = 0")
  case True
  then show ?thesis by (simp add: fl_def)
next
  case False
  define x :: rat where "x = of_int n"
  define e where "e = binade x"
  from False assms have x1: "1 \<le> x" by (simp add: x_def)
  from binade_ge1 [OF x1] have e0: "0 \<le> e" and lo: "2 ^ nat e \<le> x"
    by (simp_all add: e_def)
  have "x < 2 ^ 53" unfolding x_def using assms(2)
    by (metis of_int_less_iff of_int_numeral of_int_power)
  with lo have "(2::rat) ^ nat e < 2 ^ 53" by linarith
  from power_less_imp_less_exp [OF _ this] have "nat e < 53" by simp
  then have e52: "e \<le> 52" by simp
  define d where "d = nat (52 - e)"
  have ulp: "(2::rat) powi (max e (- 1022) - 52) = 1 / 2 ^ d"
    using e0 e52 by (simp add: power_int_def d_def max_def inverse_eq_divide power_one_over)
  have q: "x / (1 / 2 ^ d) = of_int (n * 2 ^ d)" by (simp add: x_def)
  have ax: "\<bar>x\<bar> = x" using x1 by simp
  have small: "\<bar>x\<bar> < 2 ^ 1024"
  proof -
    have "(2::rat) ^ 53 \<le> 2 ^ 1024" by (rule power_increasing) simp_all
    with \<open>x < 2 ^ 53\<close> ax show ?thesis by linarith
  qed
  have "fl x = Some x"
    using x1 small unfolding fl_def Let_def ax e_def [symmetric] ulp q round_half_even_of_int
    by (simp add: x_def)
  then show ?thesis by (simp add: x_def)
qed

lemma fl_error:
  assumes "2 powi (- 1022) \<le> x" and "x < 2 ^ 1023"
  shows "\<exists>y. fl x = Some y \<and> \<bar>y - x\<bar> \<le> x / 2 ^ 53"
proof -
  define e where "e = binade x"
  have "(0::rat) < 2 powi (- 1022)" by simp
  with assms have pos: "0 < x" by linarith
  from binade_bounds [OF pos] have lo: "2 powi e \<le> x" and hi: "x < 2 powi (e + 1)"
    by (simp_all add: e_def)
  have e_lo: "- 1022 \<le> e"
  proof (rule ccontr)
    assume "\<not> - 1022 \<le> e"
    then have "e + 1 \<le> - 1022" by simp
    then have "(2::rat) powi (e + 1) \<le> 2 powi (- 1022)"
      by (intro power_int_increasing) simp_all
    with hi assms show False by linarith
  qed
  define ulp :: rat where "ulp = 2 powi (e - 52)"
  have ulp_pos: "0 < ulp" by (simp add: ulp_def)
  have ulp_e: "ulp * 2 ^ 52 = 2 powi e"
    unfolding ulp_def by (simp add: power_int_diff)
  define y where "y = of_int (round_half_even (x / ulp)) * ulp"
  have "y - x = (of_int (round_half_even (x / ulp)) - x / ulp) * ulp"
    using ulp_pos by (simp add: y_def left_diff_distrib)
  then have "\<bar>y - x\<bar> = \<bar>of_int (round_half_even (x / ulp)) - x / ulp\<bar> * ulp"
    using ulp_pos by (simp add: abs_mult)
  also have "\<dots> \<le> 1 / 2 * ulp"
    using round_half_even_error [of "x / ulp"] ulp_pos by (intro mult_right_mono) simp_all
  finally have err: "\<bar>y - x\<bar> \<le> ulp / 2" by simp
  have "ulp / 2 = 2 powi e / 2 ^ 53" using ulp_e [symmetric] by simp
  also have "\<dots> \<le> x / 2 ^ 53" using lo by (simp add: divide_right_mono)
  finally have rel: "ulp / 2 \<le> x / 2 ^ 53" .
  have "x / 2 ^ 53 \<le> x" using pos by (simp add: field_simps)
  with err rel have "\<bar>y\<bar> \<le> 2 * x" by linarith
  also have "\<dots> < 2 * 2 ^ 1023" using assms by simp
  finally have fin: "\<bar>y\<bar> < 2 ^ 1024" by simp
  have "fl x = Some y"
    using pos e_lo fin by (simp add: fl_def Let_def e_def [symmetric] max_def ulp_def y_def)
  with err rel show ?thesis by auto
qed

lemma reduce_add_exact:
  "0 \<le> a \<Longrightarrow> \<forall>v \<in> set vs. 0 \<le> v \<Longrightarrow> a + sum_list vs < 2 ^ 53 \<Longrightarrow>
   reduce_add (of_int a) vs = Some (of_int (a + sum_list vs))"
proof (induction vs arbitrary: a)
  case Nil
  then show ?case by simp
next
  case (Cons v vs)
  have rest: "0 \<le> sum_list vs" using Cons.prems(2) by (intro sum_list_nonneg) simp
  have v0: "0 \<le> v" using Cons.prems(2) by simp
  have lt: "a + v + sum_list vs < 2 ^ 53" using Cons.prems(3) by (simp add: add.assoc)
  have "fl (of_int (a + v)) = Some (of_int (a + v))"
    using Cons.prems(1) lt rest v0 by (intro fl_of_int) linarith+
  moreover have "reduce_add (of_int (a + v)) vs = Some (of_int (a + v + sum_list vs))"
    using Cons.prems v0 by (intro Cons.IH) (simp_all add: add.assoc)
  ultimately show ?case by (simp add: add.assoc)
qed

subsection \<open>Decimal digits\<close>

lemma length_digits_pos: "0 < length (digits n)"
  by (subst digits.simps) simp

lemma toFixed_one:
  assumes "0 \<le> x" and "x < 10 ^ 21"
  shows "toFixed 1 x = Some (one_decimal (nat \<lfloor>x * 10 + 1 / 2\<rfloor>))"
proof -
  let ?n = "nat \<lfloor>x * 10 + 1 / 2\<rfloor>"
  from assms have range: "\<not> x < 0" "\<not> 10 ^ 21 \<le> \<bar>x\<bar>" "\<bar>x\<bar> = x" by simp_all
  show ?thesis
  proof (cases "?n < 10")
    case True
    then have "digits ?n = [''0123456789'' ! ?n]" by (subst digits.simps) simp
    moreover from True have "digits (?n div 10) = ''0''" by (subst digits.simps) simp
    moreover from True have "?n mod 10 = ?n" by simp
    ultimately show ?thesis
      unfolding toFixed_def one_decimal_def Let_def using range by simp
  next
    case False
    then have "digits ?n = digits (?n div 10) @ [''0123456789'' ! (?n mod 10)]"
      by (subst digits.simps) simp
    moreover have "digits (?n mod 10) = [''0123456789'' ! (?n mod 10)]"
      by (subst digits.simps) simp
    moreover note length_digits_pos [of "?n div 10"]
    ultimately show ?thesis
      unfolding toFixed_def one_decimal_def Let_def using range by simp
  qed
qed

text \<open>\<open>digits\<close> writes the decimal representation: reading it back gives the number.\<close>

lemma digit_char_value: "d < 10 \<Longrightarrow> of_char (''0123456789'' ! d) - 48 = (d::nat)"
proof -
  assume "d < 10"
  then have "d \<in> {0, 1, 2, 3, 4, 5, 6, 7, 8, 9}" by auto
  then show ?thesis by auto
qed

lemma decimal_value_snoc:
  "decimal_value (str @ [c]) = 10 * decimal_value str + (of_char c - 48)"
  by (simp add: decimal_value_def)

lemma decimal_value_digits: "decimal_value (digits n) = n"
proof (induction n rule: digits.induct)
  case (1 n)
  show ?case
  proof (cases "n < 10")
    case True
    then have "digits n = [''0123456789'' ! n]" by (subst digits.simps) simp
    with True show ?thesis by (simp add: decimal_value_def digit_char_value del: nth_Cons_numeral)
  next
    case False
    then have d: "digits n = digits (n div 10) @ [''0123456789'' ! (n mod 10)]"
      by (subst digits.simps) simp
    have "n mod 10 < 10" by simp
    from digit_char_value [OF this] "1.IH" [OF False] show ?thesis
      unfolding d decimal_value_snoc by simp
  qed
qed

subsection \<open>The average\<close>

lemma nearest_tenth:
  fixes x :: rat and s k :: int
  assumes "0 < s" and "0 < k" and "20 * s < 2 ^ 53"
    and "\<bar>x - of_int s / of_int k\<bar> \<le> (of_int s / of_int k) / 2 ^ 53"
  shows "\<bar>of_int \<lfloor>x * 10 + 1 / 2\<rfloor> / 10 - of_int s / of_int k :: rat\<bar> \<le> 1 / 20"
proof -
  define n where "n = \<lfloor>x * 10 + 1 / 2\<rfloor>"
  define S :: rat where "S = of_int s"
  define K :: rat where "K = of_int k"
  define X where "X = x * K"
  have Kpos: "0 < K" and Spos: "0 < S" using assms by (simp_all add: K_def S_def)
  have n_lo: "of_int n \<le> x * 10 + 1 / 2" and n_hi: "x * 10 + 1 / 2 < of_int n + 1"
    unfolding n_def by linarith+
  have "\<bar>x - S / K\<bar> * K \<le> (S / K) / 2 ^ 53 * K"
    using assms(4) Kpos unfolding S_def K_def by (intro mult_right_mono) simp_all
  moreover have "\<bar>x - S / K\<bar> * K = \<bar>X - S\<bar>"
  proof -
    have "(x - S / K) * K = X - S" using Kpos by (simp add: X_def left_diff_distrib)
    then have "\<bar>X - S\<bar> = \<bar>x - S / K\<bar> * \<bar>K\<bar>" by (simp only: abs_mult [symmetric])
    with Kpos show ?thesis by simp
  qed
  ultimately have close: "\<bar>X - S\<bar> \<le> S / 2 ^ 53" using Kpos by simp
  have "of_int (20 * s) < (of_int (2 ^ 53) :: rat)" using assms(3) unfolding of_int_less_iff .
  then have tiny: "20 * (S / 2 ^ 53) < 1" by (simp add: S_def)
  have lo20: "of_int ((2 * n - 1) * k) \<le> 20 * X"
  proof -
    have "(2 * of_int n - 1) * K \<le> (20 * x) * K"
      using n_lo Kpos by (intro mult_right_mono) simp_all
    then show ?thesis by (simp add: X_def K_def algebra_simps)
  qed
  have hi20: "20 * X < of_int ((2 * n + 1) * k)"
  proof -
    have "(20 * x) * K < (2 * of_int n + 1) * K"
      using n_hi Kpos by (intro mult_strict_right_mono) simp_all
    then show ?thesis by (simp add: X_def K_def algebra_simps)
  qed
  have upper: "(2 * n - 1) * k \<le> 20 * s"
  proof (rule ccontr)
    assume "\<not> (2 * n - 1) * k \<le> 20 * s"
    then have "20 * s + 1 \<le> (2 * n - 1) * k" by simp
    then have "(of_int (20 * s + 1) :: rat) \<le> of_int ((2 * n - 1) * k)"
      unfolding of_int_le_iff .
    then have "20 * S + 1 \<le> of_int ((2 * n - 1) * k)" by (simp add: S_def)
    with lo20 close tiny show False by (simp add: abs_le_iff) 
  qed
  have lower: "20 * s \<le> (2 * n + 1) * k"
  proof (rule ccontr)
    assume "\<not> 20 * s \<le> (2 * n + 1) * k"
    then have "(2 * n + 1) * k + 1 \<le> 20 * s" by simp
    then have "(of_int ((2 * n + 1) * k + 1) :: rat) \<le> of_int (20 * s)"
      unfolding of_int_le_iff .
    then have "of_int ((2 * n + 1) * k) + 1 \<le> 20 * S" by (simp add: S_def)
    with hi20 close tiny show False by (simp add: abs_le_iff)
  qed
  from upper have "(of_int ((2 * n - 1) * k) :: rat) \<le> of_int (20 * s)"
    unfolding of_int_le_iff .
  then have "(2 * of_int n - 1) * K \<le> 20 * S" by (simp add: K_def S_def)
  then have u: "2 * of_int n - 1 \<le> 20 * (S / K)" using Kpos by (simp add: field_simps)
  from lower have "(of_int (20 * s) :: rat) \<le> of_int ((2 * n + 1) * k)"
    unfolding of_int_le_iff .
  then have "20 * S \<le> (2 * of_int n + 1) * K" by (simp add: K_def S_def)
  then have l: "20 * (S / K) \<le> 2 * of_int n + 1" using Kpos by (simp add: field_simps)
  from u l have "\<bar>of_int n / 10 - S / K\<bar> \<le> 1 / 20" by linarith
  then show ?thesis unfolding n_def S_def K_def .
qed

lemma numeric_votes_Cons:
  "numeric_votes [] = []"
  "numeric_votes (p # ps) =
     (case vote p of Num n \<Rightarrow> n # numeric_votes ps | Masked \<Rightarrow> numeric_votes ps
      | Null \<Rightarrow> numeric_votes ps)"
  by (simp_all add: numeric_votes_def split: vote.splits)

lemma numeric_votes_concat:
  "numeric_votes ps =
     concat (map (\<lambda>p. case vote p of Num n \<Rightarrow> [n] | Masked \<Rightarrow> [] | Null \<Rightarrow> []) ps)"
  by (induction ps) (simp_all add: numeric_votes_Cons split: vote.splits)

lemma sum_list_ge_length: "\<forall>v \<in> set vs. (1::int) \<le> v \<Longrightarrow> int (length vs) \<le> sum_list vs"
  by (induction vs) auto

lemma average_rounds:
  assumes ne: "numeric_votes ps \<noteq> []"
    and pos: "\<forall>v \<in> set (numeric_votes ps). 1 \<le> v"
    and small: "20 * sum_list (numeric_votes ps) < 2 ^ 53"
  shows "\<exists>n. calculateAverage ps = Some (one_decimal n)
           \<and> \<bar>of_nat n / 10
               - of_int (sum_list (numeric_votes ps)) / of_nat (length (numeric_votes ps)) :: rat\<bar>
             \<le> 1 / 20"
proof -
  define vs where "vs = numeric_votes ps"
  define s where "s = sum_list vs"
  define k where "k = int (length vs)"
  define q :: rat where "q = of_int s / of_int k"
  have k1: "1 \<le> k" using ne by (cases vs) (simp_all add: k_def vs_def)
  have ks: "k \<le> s" using sum_list_ge_length [of vs] pos by (simp add: k_def s_def vs_def)
  have s53: "s < 2 ^ 53" using small k1 ks by (simp add: s_def vs_def)
  have nonneg: "\<forall>v \<in> set vs. 0 \<le> v" using pos by (force simp: vs_def)
  have sum: "reduce_add 0 vs = Some (of_int s)"
    using reduce_add_exact [of 0 vs, OF _ nonneg] s53 by (simp add: s_def)
  have q1: "1 \<le> q" using k1 ks by (simp add: q_def)
  have "q \<le> of_int s" using k1 ks by (simp add: q_def field_simps mult_le_cancel_left1)
  also have "(of_int s :: rat) < of_int (2 ^ 53)" using s53 unfolding of_int_less_iff .
  finally have q53: "q < 2 ^ 53" by simp
  have "(2::rat) powi (- 1022) \<le> 1" by (simp add: power_int_minus_divide)
  with q1 have q_lo: "2 powi (- 1022) \<le> q" by linarith
  have "(2::rat) ^ 53 \<le> 2 ^ 1023" by (rule power_increasing) simp_all
  with q53 have q_hi: "q < 2 ^ 1023" by linarith
  from fl_error [OF q_lo q_hi] obtain y where y: "fl q = Some y" and err: "\<bar>y - q\<bar> \<le> q / 2 ^ 53"
    by blast
  have "q / 2 ^ 53 \<le> q" using q1 by (simp add: field_simps)
  with err q1 have y0: "0 \<le> y" and "y \<le> 2 * q" by linarith+
  with q53 have "y < 2 * 2 ^ 53" by linarith
  then have y21: "y < 10 ^ 21" by simp
  define n where "n = nat \<lfloor>y * 10 + 1 / 2\<rfloor>"
  have res: "calculateAverage ps = Some (one_decimal n)"
    using ne sum y toFixed_one [OF y0 y21]
    by (simp add: calculateAverage_def Let_def vs_def [symmetric] q_def k_def n_def)
  have "0 \<le> \<lfloor>y * 10 + 1 / 2\<rfloor>" using y0 by simp
  then have n_int: "(of_nat n :: rat) = of_int \<lfloor>y * 10 + 1 / 2\<rfloor>"
    by (simp add: n_def of_nat_nat)
  have "\<bar>of_int \<lfloor>y * 10 + 1 / 2\<rfloor> / 10 - of_int s / of_int k :: rat\<bar> \<le> 1 / 20"
    using k1 ks small err by (intro nearest_tenth) (simp_all add: q_def s_def vs_def)
  with res show ?thesis
    unfolding n_int [symmetric] s_def k_def vs_def by auto
qed

lemma average_3_5_8:
  assumes "numeric_votes ps = [3, 5, 8]"
  shows "calculateAverage ps = Some ''5.3''"
proof -
  from average_rounds [of ps] assms obtain n where
    res: "calculateAverage ps = Some (one_decimal n)"
    and near: "\<bar>of_nat n / 10 - 16 / 3 :: rat\<bar> \<le> 1 / 20"
    by auto
  from near have "(of_nat 52 :: rat) < of_nat n" and "(of_nat n :: rat) < of_nat 54"
    by (simp_all only: of_nat_numeral)
  then have "52 < n" and "n < 54" unfolding of_nat_less_iff by simp_all
  then have "n = 53" by simp
  with res show ?thesis by (simp add: one_decimal_def digits.simps)
qed

text \<open>
  C1. \<open>calculateAverage\<close> is a function of the players list that looks at the numeric
  votes only, masked and absent ones being dropped: two lists with the same numeric votes
  give the same result. With no numeric vote it returns \<open>"0"\<close>; with the numeric votes 3,
  5 and 8 it returns \<open>"5.3"\<close>; and whenever the numeric votes are positive integers whose
  sum stays below \<open>2 ^ 53 / 20\<close> it returns the decimal numeral, with one fractional
  digit, of a tenth \<open>n / 10\<close> nearest to their mean.
\<close>

theorem calculateAverage_mean:
  "numeric_votes ps =
     concat (map (\<lambda>p. case vote p of Num n \<Rightarrow> [n] | Masked \<Rightarrow> [] | Null \<Rightarrow> []) ps)
   \<and> (numeric_votes ps = numeric_votes ps' \<longrightarrow> calculateAverage ps = calculateAverage ps')
   \<and> (numeric_votes ps = [] \<longrightarrow> calculateAverage ps = Some ''0'')
   \<and> (numeric_votes ps = [3, 5, 8] \<longrightarrow> calculateAverage ps = Some ''5.3'')
   \<and> (numeric_votes ps \<noteq> [] \<and> (\<forall>v \<in> set (numeric_votes ps). 1 \<le> v)
        \<and> 20 * sum_list (numeric_votes ps) < 2 ^ 53 \<longrightarrow>
        (\<exists>n. calculateAverage ps = Some (one_decimal n)
           \<and> \<bar>of_nat n / 10
               - of_int (sum_list (numeric_votes ps)) / of_nat (length (numeric_votes ps)) :: rat\<bar>
             \<le> 1 / 20))"
proof -
  have "calculateAverage ps = Some ''0''" if "numeric_votes ps = []"
    using that by (simp add: calculateAverage_def)
  moreover have "calculateAverage ps = calculateAverage ps'"
    if "numeric_votes ps = numeric_votes ps'"
    using that by (simp add: calculateAverage_def)
  ultimately show ?thesis
    using numeric_votes_concat [of ps] average_3_5_8 [of ps] average_rounds [of ps]
    by blast
qed

theorem calculateAverage_mean_witness:
  "numeric_votes table = [3, 5, 8]
   \<and> calculateAverage table = Some ''5.3''
   \<and> calculateAverage [ann, bob\<lparr>vote := Masked\<rparr>] = Some ''0''
   \<and> numeric_votes [ann\<lparr>vote := Num 5\<rparr>, bob] = [5, 8]
   \<and> calculateAverage [ann\<lparr>vote := Num 5\<rparr>, bob] = Some ''6.5''"
proof -
  have t: "numeric_votes table = [3, 5, 8]"
    by (simp add: table_def numeric_votes_Cons ann_def bob_def)
  have e: "numeric_votes [ann, bob\<lparr>vote := Masked\<rparr>] = []"
    by (simp add: numeric_votes_Cons ann_def bob_def)
  have p: "numeric_votes [ann\<lparr>vote := Num 5\<rparr>, bob] = [5, 8]"
    by (simp add: numeric_votes_Cons ann_def bob_def)
  from calculateAverage_mean [of "[ann\<lparr>vote := Num 5\<rparr>, bob]" table] obtain n where
    res: "calculateAverage [ann\<lparr>vote := Num 5\<rparr>, bob] = Some (one_decimal n)"
    and near: "\<bar>of_nat n / 10 - 13 / 2 :: rat\<bar> \<le> 1 / 20"
    unfolding p by auto
  from near have "(of_nat 64 :: rat) < of_nat n" and "(of_nat n :: rat) < of_nat 66"
    by (simp_all only: of_nat_numeral)
  then have "64 < n" and "n < 66" unfolding of_nat_less_iff by simp_all
  then have "n = 65" by simp
  with res have "calculateAverage [ann\<lparr>vote := Num 5\<rparr>, bob] = Some ''6.5''"
    by (simp add: one_decimal_def digits.simps)
  with calculateAverage_mean [of table table]
    calculateAverage_mean [of "[ann, bob\<lparr>vote := Masked\<rparr>]" table]
    t e p show ?thesis by simp
qed

end
